theory Spec2Isabelle
  imports Main "HOL-Library.AList"
begin

section \<open>Access capabilities: data\<close>

text \<open>
  A \<open>Link\<close> is a content identifier; the derivation rules only ever look at its string
  form (\<open>d.toString()\<close>).
\<close>

datatype link = Link (toString: string)

text \<open>
  \<open>new Failure(message)\<close> of the validator. A check returns \<open>true\<close> or a
  \<open>Failure\<close>: the sum type \<open>failure + unit\<close>, with \<open>Inr ()\<close> for \<open>true\<close>.
\<close>

datatype failure = Failure (message: string)

type_synonym result = "failure + unit"

text \<open>
  \<open>CapabilityRequest = Schema.struct({ can: Schema.string() })\<close>. A parsed capability
  \<open>{ can, with, nb }\<close> carries a \<open>can\<close> too, so it is the extension of that record by
  \<open>with\<close> and \<open>nb\<close> (the field \<open>with\<close> is written \<open>with_uri\<close>).
\<close>

record CapabilityRequest =
  can :: string

record 'nb capability = CapabilityRequest +
  with_uri :: string
  nb :: 'nb

text \<open>
  \<open>AuthorizationRequest = Schema.struct({ iss: Account, att: CapabilityRequest.array() })\<close>,
  the \<open>nb\<close> of \<open>access/authorize\<close>; the \<open>nb\<close> of \<open>access/confirm\<close> has the same two
  fields and \<open>aud\<close>.
\<close>

record AuthorizationRequest =
  iss :: string
  att :: "CapabilityRequest list"

record ConfirmRequest = AuthorizationRequest +
  aud :: string

text \<open>
  The \<open>nb\<close> of \<open>access/delegate\<close>: a dictionary from keys to Links, as the list of its
  entries in the order \<open>Object.values\<close> enumerates them. The parsed type leaves the field
  optional (\<open>delegate.nb.delegations || {}\<close>), so it is an option.
\<close>

record DelegateNb =
  delegations :: "(string \<times> link) list option"

section \<open>The helpers of utils.js\<close>

text \<open>
  Modelled from the spec: \<open>equalWith\<close> of \<open>./utils.js\<close>, which is not among the source
  files. The spec: ``Every override must also satisfy \<open>equalWith\<close>: claim.resource must
  literally equal proof.resource (delegation cannot change the resource a capability is
  scoped to).'' The spec gives no message for this Failure; the text below stands in
  for it.
\<close>

definition equalWith :: "('a, 'b) capability_scheme \<Rightarrow> ('a, 'c) capability_scheme \<Rightarrow> result" where
  "equalWith child parent =
     (if with_uri child = with_uri parent then Inr ()
      else Inl (Failure (''unauthorized: with '' @ with_uri child @ '' escalation'')))"

text \<open>
  Modelled from the spec: \<open>equal\<close> of \<open>./utils.js\<close>, which is not among the source
  files. The spec's default rule: \<open>claim.params\<close> contains no field whose value escalates
  beyond \<open>proof.params\<close>; for the fields \<open>iss\<close> and \<open>aud\<close>, which the schemas require,
  that is equality of the two values. The message follows the spec's pattern
  \<open>unauthorized: nb.<field> escalation\<close>.
\<close>

definition equal :: "string \<Rightarrow> string \<Rightarrow> string \<Rightarrow> result" where
  "equal child parent constraint =
     (if child = parent then Inr ()
      else Inl (Failure (''unauthorized: nb.'' @ constraint @ '' escalation'')))"

text \<open>
  Modelled from the spec: \<open>fail\<close> of \<open>./utils.js\<close>, which is not among the source files.
  The spec: ``Evaluator composes checks left-to-right and short-circuits on first
  \<open>Failure\<close>; all checks must pass (logical AND) for overall derivation to succeed.''
  In \<open>fail(a) || fail(b) || true\<close> that makes \<open>fail\<close> of a passed check falsy
  (\<open>None\<close>) and \<open>fail\<close> of a Failure the Failure itself.
\<close>

definition fail :: "result \<Rightarrow> failure option" where
  "fail r = (case r of Inr _ \<Rightarrow> None | Inl f \<Rightarrow> Some f)"

section \<open>Sets of strings, as JavaScript has them\<close>

text \<open>
  A JavaScript \<open>Set\<close> keeps its elements once each, in insertion order: a list without
  repetitions. \<open>Set_add\<close> is \<open>Set.prototype.add\<close>, \<open>has\<close> is \<open>Set.prototype.has\<close>,
  \<open>new_Set\<close> is \<open>new Set(iterable)\<close>.
\<close>

definition has :: "'a list \<Rightarrow> 'a \<Rightarrow> bool" where
  "has s e = (e \<in> set s)"

definition Set_add :: "'a list \<Rightarrow> 'a \<Rightarrow> 'a list" where
  "Set_add s e = (if has s e then s else s @ [e])"

definition new_Set :: "'a list \<Rightarrow> 'a list" where
  "new_Set xs = foldl Set_add [] xs"

text \<open>
  \<open>setDifference(minuend, subtrahend)\<close>: the loop over \<open>minuend\<close> adds to \<open>difference\<close>
  every element the subtrahend does not have.
\<close>

definition setDifference :: "'a list \<Rightarrow> 'a list \<Rightarrow> 'a list" where
  "setDifference minuend subtrahend =
     foldl (\<lambda>difference e. if \<not> has subtrahend e then Set_add difference e else difference)
       [] minuend"

text \<open>\<open>Array.prototype.join\<close> on strings.\<close>

fun join :: "string \<Rightarrow> string list \<Rightarrow> string" where
  "join sep [] = []"
| "join sep [x] = x"
| "join sep (x # y # ys) = x @ sep @ join sep (y # ys)"

section \<open>The checks of the access capabilities\<close>

text \<open>
  \<open>delegatedCids\<close>: the generator yields \<open>d.toString()\<close> for every value of
  \<open>delegate.nb.delegations || {}\<close>.
\<close>

definition delegatedCids :: "(DelegateNb, 'b) capability_scheme \<Rightarrow> string list" where
  "delegatedCids delegate =
     map (\<lambda>(k, d). toString d)
       (case delegations (nb delegate) of None \<Rightarrow> [] | Some kvs \<Rightarrow> kvs)"

definition subsetsNbDelegations ::
  "(DelegateNb, 'b) capability_scheme \<Rightarrow> (DelegateNb, 'c) capability_scheme \<Rightarrow> result" where
  "subsetsNbDelegations claim proof =
     (let missingProofs = setDifference (delegatedCids claim) (new_Set (delegatedCids proof))
      in if length missingProofs > 0
         then Inl (Failure (''unauthorized nb.delegations '' @ join '', '' missingProofs))
         else Inr ())"

definition subsetCapabilities :: "CapabilityRequest list \<Rightarrow> CapabilityRequest list \<Rightarrow> result" where
  "subsetCapabilities claim proof =
     (let allowed = new_Set (map can proof)
      in if has allowed ''*'' then Inr ()
         else let escalated = setDifference (map can claim) allowed
              in if length escalated > 0
                 then Inl (Failure (''unauthorized nb.att.can '' @ join '', '' escalated))
                 else Inr ())"

section \<open>The derivation rules\<close>

text \<open>
  \<open>fail(a) || fail(b) || true\<close>: the first Failure, or \<open>true\<close> when every check passed.
\<close>

definition authorize_derives ::
  "AuthorizationRequest capability \<Rightarrow> AuthorizationRequest capability \<Rightarrow> result" where
  "authorize_derives child parent =
     (case fail (equalWith child parent) of Some f \<Rightarrow> Inl f | None \<Rightarrow>
     (case fail (equal (iss (nb child)) (iss (nb parent)) ''iss'') of Some f \<Rightarrow> Inl f | None \<Rightarrow>
     (case fail (subsetCapabilities (att (nb child)) (att (nb parent))) of Some f \<Rightarrow> Inl f | None \<Rightarrow>
      Inr ())))"

definition confirm_derives ::
  "ConfirmRequest capability \<Rightarrow> ConfirmRequest capability \<Rightarrow> result" where
  "confirm_derives claim proof =
     (case fail (equalWith claim proof) of Some f \<Rightarrow> Inl f | None \<Rightarrow>
     (case fail (equal (iss (nb claim)) (iss (nb proof)) ''iss'') of Some f \<Rightarrow> Inl f | None \<Rightarrow>
     (case fail (equal (aud (nb claim)) (aud (nb proof)) ''aud'') of Some f \<Rightarrow> Inl f | None \<Rightarrow>
     (case fail (subsetCapabilities (att (nb claim)) (att (nb proof))) of Some f \<Rightarrow> Inl f | None \<Rightarrow>
      Inr ()))))"

definition delegate_derives :: "DelegateNb capability \<Rightarrow> DelegateNb capability \<Rightarrow> result" where
  "delegate_derives claim proof =
     (case fail (equalWith claim proof) of Some f \<Rightarrow> Inl f | None \<Rightarrow>
     (case fail (subsetsNbDelegations claim proof) of Some f \<Rightarrow> Inl f | None \<Rightarrow>
      Inr ()))"

section \<open>Spaces (space.js)\<close>

text \<open>
  A principal answers \<open>did()\<close>; an \<open>EdSigner\<close> is a principal that also holds its
  secret key. \<open>signer.withDID(id)\<close> is the same key under another DID.
\<close>

record Principal =
  did :: string

record EdSigner = Principal +
  secret :: "nat list"

definition withDID :: "EdSigner \<Rightarrow> string \<Rightarrow> EdSigner" where
  "withDID signer account = signer\<lparr>did := account\<rparr>"

text \<open>
  JavaScript values as far as the space metadata needs them, and plain objects as the
  list of their own properties.
\<close>

datatype jsval = Undefined | Null | Str string | Num int

type_synonym 'v object = "(string \<times> 'v) list"

text \<open>
  An expiration is \<open>Infinity\<close> or a UTC Unix timestamp in seconds. \<open>truthy\<close> is
  JavaScript's truthiness of such a number: only \<open>0\<close> is falsy.
\<close>

datatype expiry = Infinity | At int

fun truthy :: "expiry \<Rightarrow> bool" where
  "truthy Infinity = True"
| "truthy (At t) = (t \<noteq> 0)"

text \<open>The fact \<open>{ space: { name } }\<close> a space's delegations carry.\<close>

record space_fact =
  space :: "jsval object"

text \<open>
  The Delegation that \<open>delegate\<close> of \<open>@ucanto/core\<close> issues: the statement it was given,
  with issuer and audience by their DIDs. The field \<open>expiration\<close> is \<open>None\<close> when the
  call passes none; the library then picks its own default, which is not this
  repository's code. A capability of a delegation may have no \<open>nb\<close>.
\<close>

record 'nb Delegation =
  issuer :: string
  audience :: string
  capabilities :: "'nb option capability list"
  expiration :: "expiry option"
  facts :: "space_fact list"

text \<open>
  \<open>delegate({ issuer, audience, capabilities, expiration, facts })\<close>: the library call,
  as the Delegation with the fields it is given.
\<close>

definition delegate ::
  "('a Principal_scheme) \<Rightarrow> ('b Principal_scheme) \<Rightarrow> 'nb option capability list \<Rightarrow>
   expiry option \<Rightarrow> space_fact list \<Rightarrow> 'nb Delegation" where
  "delegate iss_p aud_p caps exp fs =
     \<lparr>issuer = did iss_p, audience = did aud_p, capabilities = caps,
      expiration = exp, facts = fs\<rparr>"

text \<open>\<open>Model\<close> and \<open>OwnedSpace\<close>: \<open>{ signer, name }\<close>.\<close>

record OwnedSpace =
  signer :: EdSigner
  name :: string

definition createRecovery :: "OwnedSpace \<Rightarrow> string \<Rightarrow> 'nb Delegation" where
  "createRecovery sp account =
     delegate (signer sp) (withDID (signer sp) account)
       [\<lparr>can = ''*'', with_uri = did (signer sp), nb = None\<rparr>]
       (Some Infinity)
       [\<lparr>space = [(''name'', Str (name sp))]\<rparr>]"

definition SESSION_LIFETIME :: int where
  "SESSION_LIFETIME = 60 * 60 * 24 * 365"

text \<open>
  \<open>API.Access\<close>: a record from abilities to details, as the list of its entries; of
  the details only their truthiness is read (\<open>if (details)\<close>).
\<close>

type_synonym Access = "(string \<times> bool) list"

definition toCapabilities :: "(string \<times> Access) list \<Rightarrow> 'nb option capability list" where
  "toCapabilities allow =
     concat (map (\<lambda>(subject, access).
        map (\<lambda>(c, details). \<lparr>can = c, with_uri = subject, nb = None\<rparr>)
          (filter (\<lambda>(c, details). details) access)) allow)"

text \<open>
  \<open>createAuthorization({ signer, name }, { agent, access = Access.spaceAccess,
  expiration = UCAN.now() + SESSION_LIFETIME })\<close>. An option left out (or
  \<open>undefined\<close>) is \<open>None\<close> and takes its default. \<open>Access.spaceAccess\<close> is a constant of
  \<open>access.js\<close>, which is not among the source files, and \<open>UCAN.now()\<close> is the clock:
  both are parameters. The expiration is handed to \<open>delegate\<close> only when it is truthy.
\<close>

definition createAuthorization ::
  "Access \<Rightarrow> int \<Rightarrow> OwnedSpace \<Rightarrow> ('a Principal_scheme) \<Rightarrow> Access option \<Rightarrow> expiry option \<Rightarrow>
   'nb Delegation" where
  "createAuthorization spaceAccess now sp agent access_opt expiration_opt =
     (let access = (case access_opt of None \<Rightarrow> spaceAccess | Some a \<Rightarrow> a);
          expiration = (case expiration_opt of None \<Rightarrow> At (now + SESSION_LIFETIME) | Some e \<Rightarrow> e)
      in delegate (signer sp) agent
           (toCapabilities [(did (signer sp), access)])
           (if truthy expiration then Some expiration else None)
           [\<lparr>space = [(''name'', Str (name sp))]\<rparr>])"

definition OwnedSpace_withName :: "OwnedSpace \<Rightarrow> string \<Rightarrow> OwnedSpace" where
  "OwnedSpace_withName this n = \<lparr>signer = signer this, name = n\<rparr>"

subsection \<open>Objects that are shared by reference\<close>

text \<open>
  A heap of plain objects: an address is an index, and \<open>alloc\<close> puts a new object
  behind every existing one. An object literal such as \<open>{ ...o }\<close> allocates.
\<close>

type_synonym 'v heap = "'v object list"

definition alloc :: "'v heap \<Rightarrow> 'v object \<Rightarrow> 'v heap \<times> nat" where
  "alloc h ob = (h @ [ob], length h)"

text \<open>
  \<open>SharedSpace\<close>: \<open>{ delegation, id, meta }\<close>, with \<open>meta\<close> a reference to the metadata
  object (the field \<open>id\<close> is written \<open>space_id\<close>). The getter \<open>name\<close> is
  \<open>this.meta.name ?? ''\<close>; \<open>withName\<close> builds the new metadata object
  \<open>{ ...this.meta, name }\<close> and a new space around it.
\<close>

record 'd SharedSpace =
  delegation :: 'd
  space_id :: string
  meta :: nat

definition SharedSpace_name :: "jsval heap \<Rightarrow> 'd SharedSpace \<Rightarrow> jsval" where
  "SharedSpace_name h this =
     (case map_of (h ! meta this) ''name'' of
        None \<Rightarrow> Str []
      | Some Undefined \<Rightarrow> Str []
      | Some Null \<Rightarrow> Str []
      | Some v \<Rightarrow> v)"

definition SharedSpace_withName ::
  "jsval heap \<Rightarrow> 'd SharedSpace \<Rightarrow> string \<Rightarrow> jsval heap \<times> 'd SharedSpace" where
  "SharedSpace_withName h this n =
     (let (h', m) = alloc h (AList.update ''name'' (Str n) (h ! meta this))
      in (h', \<lparr>delegation = delegation this, space_id = space_id this, meta = m\<rparr>))"

section \<open>The memory driver\<close>

text \<open>
  \<open>MemoryDriver\<close>: the private field \<open>#data\<close> is \<open>undefined\<close> (\<open>None\<close>) or a reference
  to a record. \<open>save\<close> stores a reference to the fresh copy \<open>{ ...data }\<close>; \<open>load\<close>
  returns nothing when there is no record or the record has no keys.
\<close>

record MemoryDriver =
  data :: "nat option"

definition MemoryDriver_new :: MemoryDriver where
  "MemoryDriver_new = \<lparr>data = None\<rparr>"

definition reset :: "MemoryDriver \<Rightarrow> MemoryDriver" where
  "reset this = this\<lparr>data := None\<rparr>"

definition save :: "'v heap \<Rightarrow> MemoryDriver \<Rightarrow> nat \<Rightarrow> 'v heap \<times> MemoryDriver" where
  "save h this d =
     (let (h', c) = alloc h (h ! d)
      in (h', this\<lparr>data := Some c\<rparr>))"

definition load :: "'v heap \<Rightarrow> MemoryDriver \<Rightarrow> nat option" where
  "load h this =
     (case data this of
        None \<Rightarrow> None
      | Some a \<Rightarrow> if length (map fst (h ! a)) = 0 then None else Some a)"

section \<open>The authorization workflow\<close>

text \<open>The \<open>nb\<close> of \<open>ucan/attest\<close> (\<open>session\<close>): the Link of the attested delegation.\<close>

record SessionNb =
  nb_proof :: link

text \<open>
  Modelled from the spec: the orchestrator that confirms an authorization request and
  serves \<open>access/claim\<close>; its handlers are not among the source files, only their test
  is. The spec (4.6): a request is persisted as a pending confirmation keyed by an
  identifier, and no capability is issued yet; ``on confirmation the orchestrator
  synchronously issues two Delegations: (a) an authorization Delegation, issuer =
  account, audience = requesting agent, capabilities = requested abilities narrowed to
  "*" session scope, expiration = infinite; (b) an Attestation, issuer = authority,
  referencing (a)'s Link''; repeated confirmation is a no-op; a claim ``returns the full
  mapping of pending Delegations [...] and removes them from the pending queue''. The
  Attestation's capability is \<open>{can: "ucan/attest", with: authority, nb: {proof}}\<close>
  (spec 3); the test expects the agent as its audience and no expiration. The resource
  of the session scope is \<open>ucan:*\<close> (spec 8). The request is the \<open>access/authorize\<close>
  capability: \<open>with\<close> is the agent, \<open>nb.iss\<close> the account. The Link of a delegation is
  computed by the transport: the parameter \<open>link_of\<close>.
\<close>

record orchestrator =
  pending :: "(nat \<times> AuthorizationRequest capability) list"
  queue :: "SessionNb Delegation list"

text \<open>
  Modelled from the spec: the two delegations a confirmation issues (the handler is not
  among the source files). Each requested ability becomes a capability on \<open>ucan:*\<close>.
\<close>

definition createSessionProofs ::
  "(SessionNb Delegation \<Rightarrow> link) \<Rightarrow> string \<Rightarrow> AuthorizationRequest capability \<Rightarrow>
   SessionNb Delegation list" where
  "createSessionProofs link_of authority request =
     (let authorization =
            \<lparr>issuer = iss (nb request), audience = with_uri request,
             capabilities =
               map (\<lambda>r. \<lparr>can = can r, with_uri = ''ucan:*'', nb = None\<rparr>) (att (nb request)),
             expiration = Some Infinity, facts = []\<rparr>;
          attestation =
            \<lparr>issuer = authority, audience = with_uri request,
             capabilities =
               [\<lparr>can = ''ucan/attest'', with_uri = authority,
                 nb = Some \<lparr>nb_proof = link_of authorization\<rparr>\<rparr>],
             expiration = Some Infinity, facts = []\<rparr>
      in [authorization, attestation])"

text \<open>
  Modelled from the spec: the state \<open>Requested\<close> (the handler is not among the source
  files). The request is kept as a pending confirmation under its identifier; nothing
  is issued.
\<close>

definition authorize_request ::
  "orchestrator \<Rightarrow> nat \<Rightarrow> AuthorizationRequest capability \<Rightarrow> orchestrator" where
  "authorize_request st key request = st\<lparr>pending := pending st @ [(key, request)]\<rparr>"

text \<open>
  Modelled from the spec: the inbound confirmation (the handler is not among the source
  files). It issues the two delegations of the pending request into the queue and
  forgets the request, so that a repeated confirmation finds none and changes nothing.
\<close>

definition confirmation ::
  "(SessionNb Delegation \<Rightarrow> link) \<Rightarrow> string \<Rightarrow> orchestrator \<Rightarrow> nat \<Rightarrow> orchestrator" where
  "confirmation link_of authority st key =
     (case map_of (pending st) key of
        None \<Rightarrow> st
      | Some request \<Rightarrow>
          st\<lparr>pending := filter (\<lambda>(k, r). k \<noteq> key) (pending st),
             queue := queue st @ createSessionProofs link_of authority request\<rparr>)"

text \<open>
  Modelled from the spec: the claim (the handler is not among the source files). It
  returns the queued delegations addressed to the claiming principal and removes them
  from the queue.
\<close>

definition claim_delegations ::
  "orchestrator \<Rightarrow> string \<Rightarrow> SessionNb Delegation list \<times> orchestrator" where
  "claim_delegations st who =
     (filter (\<lambda>d. audience d = who) (queue st),
      st\<lparr>queue := filter (\<lambda>d. audience d \<noteq> who) (queue st)\<rparr>)"

section \<open>Example inputs\<close>

definition ex_delegate_claim :: "DelegateNb capability" where
  "ex_delegate_claim =
     \<lparr>can = ''access/delegate'', with_uri = ''did:key:zSpace'',
      nb = \<lparr>delegations =
             Some [(''k1'', Link ''a''), (''k2'', Link ''d''), (''k3'', Link ''b''),
                   (''k4'', Link ''e'')]\<rparr>\<rparr>"

definition ex_delegate_proof :: "DelegateNb capability" where
  "ex_delegate_proof =
     \<lparr>can = ''access/delegate'', with_uri = ''did:key:zSpace'',
      nb = \<lparr>delegations =
             Some [(''k1'', Link ''a''), (''k2'', Link ''b''), (''k3'', Link ''c'')]\<rparr>\<rparr>"

definition ex_authorize_claim :: "AuthorizationRequest capability" where
  "ex_authorize_claim =
     \<lparr>can = ''access/authorize'', with_uri = ''did:key:zAgent'',
      nb = \<lparr>iss = ''did:mailto:example:alice'',
            att = [\<lparr>can = ''store/add''\<rparr>, \<lparr>can = ''store/remove''\<rparr>]\<rparr>\<rparr>"

definition ex_authorize_proof :: "AuthorizationRequest capability" where
  "ex_authorize_proof =
     \<lparr>can = ''access/authorize'', with_uri = ''did:key:zAgent'',
      nb = \<lparr>iss = ''did:mailto:example:alice'', att = [\<lparr>can = ''store/add''\<rparr>]\<rparr>\<rparr>"

definition ex_confirm_claim :: "ConfirmRequest capability" where
  "ex_confirm_claim =
     \<lparr>can = ''access/confirm'', with_uri = ''did:web:web3.storage'',
      nb = \<lparr>iss = ''did:mailto:example:alice'',
            att = [\<lparr>can = ''store/add''\<rparr>, \<lparr>can = ''upload/add''\<rparr>],
            aud = ''did:key:zAgent''\<rparr>\<rparr>"

definition ex_confirm_proof :: "ConfirmRequest capability" where
  "ex_confirm_proof =
     \<lparr>can = ''access/confirm'', with_uri = ''did:web:web3.storage'',
      nb = \<lparr>iss = ''did:mailto:example:alice'', att = [\<lparr>can = ''*''\<rparr>],
            aud = ''did:key:zAgent''\<rparr>\<rparr>"

definition ex_other_agent_proof :: "AuthorizationRequest capability" where
  "ex_other_agent_proof =
     \<lparr>can = ''access/authorize'', with_uri = ''did:key:zOther'',
      nb = \<lparr>iss = ''did:mailto:example:bob'', att = [\<lparr>can = ''upload/add''\<rparr>]\<rparr>\<rparr>"

definition ex_sudo_request :: "AuthorizationRequest capability" where
  "ex_sudo_request =
     \<lparr>can = ''access/authorize'', with_uri = ''did:key:zAgent'',
      nb = \<lparr>iss = ''did:mailto:example:alice'', att = [\<lparr>can = ''*''\<rparr>]\<rparr>\<rparr>"

definition ex_link_of :: "SessionNb Delegation \<Rightarrow> link" where
  "ex_link_of d = Link (''bafy:'' @ issuer d @ ''>'' @ audience d)"

definition ex_space :: OwnedSpace where
  "ex_space = \<lparr>signer = \<lparr>did = ''did:key:zSpace'', secret = [1, 2, 3]\<rparr>, name = ''main''\<rparr>"

definition ex_heap :: "jsval heap" where
  "ex_heap = [[(''name'', Str ''old''), (''color'', Str ''blue'')], []]"

definition ex_shared :: "nat SharedSpace" where
  "ex_shared = \<lparr>delegation = 7, space_id = ''did:key:zSpace'', meta = 0\<rparr>"

definition ex_state :: orchestrator where
  "ex_state = authorize_request \<lparr>pending = [], queue = []\<rparr> 0 ex_sudo_request"

definition ex_authorization :: "SessionNb Delegation" where
  "ex_authorization =
     \<lparr>issuer = ''did:mailto:example:alice'', audience = ''did:key:zAgent'',
      capabilities = [\<lparr>can = ''*'', with_uri = ''ucan:*'', nb = None\<rparr>],
      expiration = Some Infinity, facts = []\<rparr>"

definition ex_attestation :: "SessionNb Delegation" where
  "ex_attestation =
     \<lparr>issuer = ''did:web:web3.storage'', audience = ''did:key:zAgent'',
      capabilities = [\<lparr>can = ''ucan/attest'', with_uri = ''did:web:web3.storage'',
                       nb = Some \<lparr>nb_proof = ex_link_of ex_authorization\<rparr>\<rparr>],
      expiration = Some Infinity, facts = []\<rparr>"

section \<open>Properties of the set helpers\<close>

lemma set_Set_add: "set (Set_add s e) = insert e (set s)"
  by (auto simp: Set_add_def has_def)

lemma distinct_Set_add: "distinct s \<Longrightarrow> distinct (Set_add s e)"
  by (simp add: Set_add_def has_def)

lemma set_foldl_Set_add: "set (foldl Set_add acc xs) = set acc \<union> set xs"
  by (induction xs arbitrary: acc) (auto simp: set_Set_add)

lemma set_new_Set: "set (new_Set xs) = set xs"
  by (simp add: new_Set_def set_foldl_Set_add)

lemma has_new_Set: "has (new_Set xs) e = (e \<in> set xs)"
  by (simp add: has_def set_new_Set)

lemma set_foldl_difference:
  "set (foldl (\<lambda>d e. if \<not> has s e then Set_add d e else d) acc m) = set acc \<union> (set m - set s)"
  by (induction m arbitrary: acc) (auto simp: set_Set_add has_def)

lemma distinct_foldl_difference:
  "distinct acc \<Longrightarrow> distinct (foldl (\<lambda>d e. if \<not> has s e then Set_add d e else d) acc m)"
  by (induction m arbitrary: acc) (simp_all add: distinct_Set_add)

lemma set_setDifference: "set (setDifference m s) = set m - set s"
  by (simp add: setDifference_def set_foldl_difference)

lemma distinct_setDifference: "distinct (setDifference m s)"
  by (simp add: setDifference_def distinct_foldl_difference)

lemma setDifference_empty_iff: "(setDifference m s = []) = (set m \<subseteq> set s)"
proof -
  have "(setDifference m s = []) = (set (setDifference m s) = {})"
    by simp
  then show ?thesis
    by (simp add: set_setDifference)
qed

section \<open>Properties of the derivation rules\<close>

lemma equalWith_Inr: "(equalWith c p = Inr ()) = (with_uri c = with_uri p)"
  by (simp add: equalWith_def)

lemma authorize_derives_with:
  "with_uri c \<noteq> with_uri p \<Longrightarrow> authorize_derives c p = equalWith c p"
  by (simp add: authorize_derives_def equalWith_def fail_def)

lemma confirm_derives_with:
  "with_uri c \<noteq> with_uri p \<Longrightarrow> confirm_derives c p = equalWith c p"
  by (simp add: confirm_derives_def equalWith_def fail_def)

lemma delegate_derives_with:
  "with_uri c \<noteq> with_uri p \<Longrightarrow> delegate_derives c p = equalWith c p"
  by (simp add: delegate_derives_def equalWith_def fail_def)

lemma authorize_derives_agree:
  "with_uri c = with_uri p \<Longrightarrow> iss (nb c) = iss (nb p) \<Longrightarrow>
   authorize_derives c p = subsetCapabilities (att (nb c)) (att (nb p))"
  by (cases "subsetCapabilities (att (nb c)) (att (nb p))")
     (simp_all add: authorize_derives_def equalWith_def equal_def fail_def)

lemma confirm_derives_agree:
  "with_uri c = with_uri p \<Longrightarrow> iss (nb c) = iss (nb p) \<Longrightarrow> aud (nb c) = aud (nb p) \<Longrightarrow>
   confirm_derives c p = subsetCapabilities (att (nb c)) (att (nb p))"
  by (cases "subsetCapabilities (att (nb c)) (att (nb p))")
     (simp_all add: confirm_derives_def equalWith_def equal_def fail_def)

lemma delegate_derives_agree:
  "with_uri c = with_uri p \<Longrightarrow> delegate_derives c p = subsetsNbDelegations c p"
  by (cases "subsetsNbDelegations c p")
     (simp_all add: delegate_derives_def equalWith_def fail_def)

lemma subsetsNbDelegations_eq:
  "subsetsNbDelegations c p =
     (if set (delegatedCids c) \<subseteq> set (delegatedCids p) then Inr ()
      else Inl (Failure (''unauthorized nb.delegations '' @
             join '', '' (setDifference (delegatedCids c) (new_Set (delegatedCids p))))))"
  by (simp add: subsetsNbDelegations_def Let_def setDifference_empty_iff set_new_Set)

lemma subsetCapabilities_eq:
  "subsetCapabilities c p =
     (if ''*'' \<in> can ` set p \<or> can ` set c \<subseteq> can ` set p then Inr ()
      else Inl (Failure (''unauthorized nb.att.can '' @
             join '', '' (setDifference (map can c) (new_Set (map can p))))))"
  by (simp add: subsetCapabilities_def Let_def setDifference_empty_iff set_new_Set has_new_Set)

lemma set_delegatedCids:
  "set (delegatedCids c) =
     toString ` snd ` set (case delegations (nb c) of None \<Rightarrow> [] | Some kvs \<Rightarrow> kvs)"
  by (force simp: delegatedCids_def split: option.splits)

text \<open>
  C1. For \<open>access/delegate\<close> capabilities with equal \<open>with\<close>, \<open>derives\<close> succeeds exactly
  when the Links that are the values of \<open>claim.nb.delegations\<close>, as strings, all occur
  among those of \<open>proof.nb.delegations\<close> (a missing field holds none). Otherwise it is
  the Failure whose message lists the missing Links: each one once, and nothing else.
\<close>

theorem delegate_derives_subset:
  assumes "with_uri claim = with_uri proof"
  shows "(delegate_derives claim proof = Inr ()) =
           (toString ` snd ` set (case delegations (nb claim) of None \<Rightarrow> [] | Some kvs \<Rightarrow> kvs)
            \<subseteq> toString ` snd ` set (case delegations (nb proof) of None \<Rightarrow> [] | Some kvs \<Rightarrow> kvs))
       \<and> (delegate_derives claim proof = Inr ()
          \<or> (\<exists>missing. distinct missing
                \<and> set missing =
                    toString ` snd ` set (case delegations (nb claim) of None \<Rightarrow> [] | Some kvs \<Rightarrow> kvs)
                    - toString ` snd ` set (case delegations (nb proof) of None \<Rightarrow> [] | Some kvs \<Rightarrow> kvs)
                \<and> delegate_derives claim proof =
                    Inl (Failure (''unauthorized nb.delegations '' @ join '', '' missing))))"
proof -
  let ?cl = "toString ` snd ` set (case delegations (nb claim) of None \<Rightarrow> [] | Some kvs \<Rightarrow> kvs)"
  let ?pr = "toString ` snd ` set (case delegations (nb proof) of None \<Rightarrow> [] | Some kvs \<Rightarrow> kvs)"
  let ?ms = "setDifference (delegatedCids claim) (new_Set (delegatedCids proof))"
  have c: "set (delegatedCids claim) = ?cl"
    by (rule set_delegatedCids)
  have p: "set (delegatedCids proof) = ?pr"
    by (rule set_delegatedCids)
  have d: "delegate_derives claim proof =
      (if ?cl \<subseteq> ?pr then Inr ()
       else Inl (Failure (''unauthorized nb.delegations '' @ join '', '' ?ms)))"
    using assms by (simp only: delegate_derives_agree subsetsNbDelegations_eq c p)
  have m: "distinct ?ms \<and> set ?ms = ?cl - ?pr"
    by (simp only: distinct_setDifference set_setDifference set_new_Set c p simp_thms)
  have i: "(delegate_derives claim proof = Inr ()) = (?cl \<subseteq> ?pr)"
    by (simp add: d)
  have f: "delegate_derives claim proof = Inr ()
      \<or> delegate_derives claim proof =
          Inl (Failure (''unauthorized nb.delegations '' @ join '', '' ?ms))"
    by (simp add: d)
  from m f have e: "delegate_derives claim proof = Inr ()
          \<or> (\<exists>missing. distinct missing \<and> set missing = ?cl - ?pr
                \<and> delegate_derives claim proof =
                    Inl (Failure (''unauthorized nb.delegations '' @ join '', '' missing)))"
    by blast
  from i e show ?thesis
    by (intro conjI)
qed

text \<open>
  The subset law of the spec, with the missing Links not last among the entries: the
  claim \<open>{a, d, b, e}\<close> against the proof \<open>{a, b, c}\<close> fails naming \<open>d\<close> and \<open>e\<close>.
\<close>

theorem delegate_derives_subset_witness:
  "with_uri ex_delegate_claim = with_uri ex_delegate_proof
   \<and> delegations (nb ex_delegate_claim) =
       Some [(''k1'', Link ''a''), (''k2'', Link ''d''), (''k3'', Link ''b''), (''k4'', Link ''e'')]
   \<and> delegations (nb ex_delegate_proof) =
       Some [(''k1'', Link ''a''), (''k2'', Link ''b''), (''k3'', Link ''c'')]
   \<and> delegate_derives ex_delegate_claim ex_delegate_proof \<noteq> Inr ()
   \<and> delegate_derives ex_delegate_claim ex_delegate_proof
       = Inl (Failure ''unauthorized nb.delegations d, e'')
   \<and> delegate_derives ex_delegate_proof ex_delegate_proof = Inr ()"
proof -
  have w: "with_uri ex_delegate_claim = with_uri ex_delegate_proof"
    by (simp add: ex_delegate_claim_def ex_delegate_proof_def)
  have w': "with_uri ex_delegate_proof = with_uri ex_delegate_proof"
    by (rule refl)
  have c: "delegations (nb ex_delegate_claim) =
       Some [(''k1'', Link ''a''), (''k2'', Link ''d''), (''k3'', Link ''b''), (''k4'', Link ''e'')]"
    by (simp add: ex_delegate_claim_def)
  have p: "delegations (nb ex_delegate_proof) =
       Some [(''k1'', Link ''a''), (''k2'', Link ''b''), (''k3'', Link ''c'')]"
    by (simp add: ex_delegate_proof_def)
  have v: "delegate_derives ex_delegate_claim ex_delegate_proof
       = Inl (Failure ''unauthorized nb.delegations d, e'')"
    by (simp add: ex_delegate_claim_def ex_delegate_proof_def delegatedCids_def
        delegate_derives_def equalWith_def fail_def subsetsNbDelegations_def
        setDifference_def new_Set_def Set_add_def has_def)
  from delegate_derives_subset [OF w] c p
  have r: "delegate_derives ex_delegate_claim ex_delegate_proof \<noteq> Inr ()"
    by simp
  from delegate_derives_subset [OF w']
  have s: "delegate_derives ex_delegate_proof ex_delegate_proof = Inr ()"
    by simp
  from w c p r v s show ?thesis
    by (intro conjI)
qed

text \<open>
  C2. For \<open>access/authorize\<close> capabilities that agree on \<open>with\<close> and \<open>nb.iss\<close>, and for
  \<open>access/confirm\<close> capabilities that agree on \<open>aud\<close> as well, \<open>derives\<close> is the
  requested-abilities check \<open>subsetCapabilities\<close> on the two \<open>nb.att\<close>. That check accepts
  every claim when some \<open>can\<close> of the proof is \<open>*\<close>; otherwise it accepts exactly when
  every \<open>can\<close> of the claim occurs among those of the proof; and when it rejects, it is
  the Failure whose message lists the escalated abilities, each one once.
\<close>

theorem requested_abilities_check:
  assumes "with_uri c = with_uri p" and "iss (nb c) = iss (nb p)"
    and "with_uri c' = with_uri p'" and "iss (nb c') = iss (nb p')"
    and "aud (nb c') = aud (nb p')"
  shows "authorize_derives c p = subsetCapabilities (att (nb c)) (att (nb p))
       \<and> confirm_derives c' p' = subsetCapabilities (att (nb c')) (att (nb p'))
       \<and> (''*'' \<in> can ` set patt \<longrightarrow> subsetCapabilities catt patt = Inr ())
       \<and> (''*'' \<notin> can ` set patt \<longrightarrow>
            (subsetCapabilities catt patt = Inr ()) = (can ` set catt \<subseteq> can ` set patt))
       \<and> (subsetCapabilities catt patt = Inr ()
          \<or> (\<exists>escalated. distinct escalated
                \<and> set escalated = can ` set catt - can ` set patt
                \<and> subsetCapabilities catt patt =
                    Inl (Failure (''unauthorized nb.att.can '' @ join '', '' escalated))))"
proof -
  let ?es = "setDifference (map can catt) (new_Set (map can patt))"
  have a: "authorize_derives c p = subsetCapabilities (att (nb c)) (att (nb p))"
    using assms(1,2) by (rule authorize_derives_agree)
  have b: "confirm_derives c' p' = subsetCapabilities (att (nb c')) (att (nb p'))"
    using assms(3,4,5) by (rule confirm_derives_agree)
  have w: "''*'' \<in> can ` set patt \<longrightarrow> subsetCapabilities catt patt = Inr ()"
    by (simp add: subsetCapabilities_eq)
  have s: "''*'' \<notin> can ` set patt \<longrightarrow>
            (subsetCapabilities catt patt = Inr ()) = (can ` set catt \<subseteq> can ` set patt)"
    by (simp add: subsetCapabilities_eq)
  have e: "distinct ?es \<and> set ?es = can ` set catt - can ` set patt"
    by (simp add: distinct_setDifference set_setDifference set_new_Set)
  have f: "subsetCapabilities catt patt = Inr ()
          \<or> subsetCapabilities catt patt =
                    Inl (Failure (''unauthorized nb.att.can '' @ join '', '' ?es))"
    by (simp add: subsetCapabilities_eq)
  from e f have g: "subsetCapabilities catt patt = Inr ()
          \<or> (\<exists>escalated. distinct escalated
                \<and> set escalated = can ` set catt - can ` set patt
                \<and> subsetCapabilities catt patt =
                    Inl (Failure (''unauthorized nb.att.can '' @ join '', '' escalated)))"
    by blast
  from a b w s g show ?thesis
    by (intro conjI)
qed

text \<open>
  A proof with \<open>*\<close> accepts the \<open>access/confirm\<close> claim; a proof with only \<open>store/add\<close>
  rejects the \<open>access/authorize\<close> claim that also asks for \<open>store/remove\<close>, naming it.
\<close>

theorem requested_abilities_check_witness:
  "with_uri ex_authorize_claim = with_uri ex_authorize_proof
   \<and> iss (nb ex_authorize_claim) = iss (nb ex_authorize_proof)
   \<and> with_uri ex_confirm_claim = with_uri ex_confirm_proof
   \<and> iss (nb ex_confirm_claim) = iss (nb ex_confirm_proof)
   \<and> aud (nb ex_confirm_claim) = aud (nb ex_confirm_proof)
   \<and> ''*'' \<in> can ` set (att (nb ex_confirm_proof))
   \<and> ''*'' \<notin> can ` set (att (nb ex_authorize_proof))
   \<and> confirm_derives ex_confirm_claim ex_confirm_proof = Inr ()
   \<and> authorize_derives ex_authorize_claim ex_authorize_proof
       = Inl (Failure ''unauthorized nb.att.can store/remove'')"
proof -
  have h1: "with_uri ex_authorize_claim = with_uri ex_authorize_proof"
    and h2: "iss (nb ex_authorize_claim) = iss (nb ex_authorize_proof)"
    by (simp_all add: ex_authorize_claim_def ex_authorize_proof_def)
  have h3: "with_uri ex_confirm_claim = with_uri ex_confirm_proof"
    and h4: "iss (nb ex_confirm_claim) = iss (nb ex_confirm_proof)"
    and h5: "aud (nb ex_confirm_claim) = aud (nb ex_confirm_proof)"
    by (simp_all add: ex_confirm_claim_def ex_confirm_proof_def)
  have s1: "''*'' \<in> can ` set (att (nb ex_confirm_proof))"
    by (simp add: ex_confirm_proof_def)
  have s2: "''*'' \<notin> can ` set (att (nb ex_authorize_proof))"
    by (simp add: ex_authorize_proof_def)
  note t = requested_abilities_check [OF h1 h2 h3 h4 h5,
      where catt = "att (nb ex_confirm_claim)" and patt = "att (nb ex_confirm_proof)"]
  from t s1 have r1: "confirm_derives ex_confirm_claim ex_confirm_proof = Inr ()"
    by simp
  have "subsetCapabilities (att (nb ex_authorize_claim)) (att (nb ex_authorize_proof))
       = Inl (Failure ''unauthorized nb.att.can store/remove'')"
    by (simp add: ex_authorize_claim_def ex_authorize_proof_def subsetCapabilities_def
        setDifference_def new_Set_def Set_add_def has_def)
  with t have r2: "authorize_derives ex_authorize_claim ex_authorize_proof
       = Inl (Failure ''unauthorized nb.att.can store/remove'')"
    by simp
  from h1 h2 h3 h4 h5 s1 s2 r1 r2 show ?thesis
    by (intro conjI)
qed

text \<open>
  C3. Each of the three rules (\<open>access/authorize\<close>, \<open>access/confirm\<close>,
  \<open>access/delegate\<close>) succeeds only for a claim and a proof with the same \<open>with\<close>; and
  when the two differ, the outcome is the Failure of \<open>equalWith\<close>, whatever the other
  fields hold: no later check is reached.
\<close>

theorem derives_needs_equal_with:
  "(authorize_derives c1 p1 = Inr () \<longrightarrow> with_uri c1 = with_uri p1)
   \<and> (confirm_derives c2 p2 = Inr () \<longrightarrow> with_uri c2 = with_uri p2)
   \<and> (delegate_derives c3 p3 = Inr () \<longrightarrow> with_uri c3 = with_uri p3)
   \<and> (with_uri c1 \<noteq> with_uri p1 \<longrightarrow>
        authorize_derives c1 p1 = equalWith c1 p1 \<and> equalWith c1 p1 \<noteq> Inr ())
   \<and> (with_uri c2 \<noteq> with_uri p2 \<longrightarrow>
        confirm_derives c2 p2 = equalWith c2 p2 \<and> equalWith c2 p2 \<noteq> Inr ())
   \<and> (with_uri c3 \<noteq> with_uri p3 \<longrightarrow>
        delegate_derives c3 p3 = equalWith c3 p3 \<and> equalWith c3 p3 \<noteq> Inr ())"
proof -
  have a: "authorize_derives c1 p1 = Inr () \<longrightarrow> with_uri c1 = with_uri p1"
    using authorize_derives_with [of c1 p1] equalWith_Inr [of c1 p1] by auto
  have b: "confirm_derives c2 p2 = Inr () \<longrightarrow> with_uri c2 = with_uri p2"
    using confirm_derives_with [of c2 p2] equalWith_Inr [of c2 p2] by auto
  have c: "delegate_derives c3 p3 = Inr () \<longrightarrow> with_uri c3 = with_uri p3"
    using delegate_derives_with [of c3 p3] equalWith_Inr [of c3 p3] by auto
  have d: "with_uri c1 \<noteq> with_uri p1 \<longrightarrow>
        authorize_derives c1 p1 = equalWith c1 p1 \<and> equalWith c1 p1 \<noteq> Inr ()"
    by (simp add: authorize_derives_with equalWith_Inr)
  have e: "with_uri c2 \<noteq> with_uri p2 \<longrightarrow>
        confirm_derives c2 p2 = equalWith c2 p2 \<and> equalWith c2 p2 \<noteq> Inr ()"
    by (simp add: confirm_derives_with equalWith_Inr)
  have f: "with_uri c3 \<noteq> with_uri p3 \<longrightarrow>
        delegate_derives c3 p3 = equalWith c3 p3 \<and> equalWith c3 p3 \<noteq> Inr ()"
    by (simp add: delegate_derives_with equalWith_Inr)
  from a b c d e f show ?thesis
    by (intro conjI)
qed

text \<open>
  A claim for one agent against a proof for another (with another account and other
  abilities, too) is rejected by the \<open>with\<close> check; a capability against itself passes.
\<close>

theorem derives_needs_equal_with_witness:
  "with_uri ex_authorize_claim \<noteq> with_uri ex_other_agent_proof
   \<and> authorize_derives ex_authorize_claim ex_other_agent_proof
       = Inl (Failure ''unauthorized: with did:key:zAgent escalation'')
   \<and> authorize_derives ex_authorize_proof ex_authorize_proof = Inr ()
   \<and> with_uri ex_authorize_proof = with_uri ex_authorize_proof"
proof -
  have n: "with_uri ex_authorize_claim \<noteq> with_uri ex_other_agent_proof"
    by (simp add: ex_authorize_claim_def ex_other_agent_proof_def)
  have v: "equalWith ex_authorize_claim ex_other_agent_proof
       = Inl (Failure ''unauthorized: with did:key:zAgent escalation'')"
    by (simp add: equalWith_def ex_authorize_claim_def ex_other_agent_proof_def)
  have s: "authorize_derives ex_authorize_proof ex_authorize_proof = Inr ()"
    by (simp add: authorize_derives_def equalWith_def equal_def fail_def subsetCapabilities_def
        setDifference_def new_Set_def Set_add_def has_def ex_authorize_proof_def)
  note t = derives_needs_equal_with
    [where ?c1.0 = ex_authorize_claim and ?p1.0 = ex_other_agent_proof]
  from t n have "authorize_derives ex_authorize_claim ex_other_agent_proof
       = equalWith ex_authorize_claim ex_other_agent_proof"
    by blast
  from this v have r: "authorize_derives ex_authorize_claim ex_other_agent_proof
       = Inl (Failure ''unauthorized: with did:key:zAgent escalation'')"
    by (rule trans)
  have e: "with_uri ex_authorize_proof = with_uri ex_authorize_proof"
    by (rule refl)
  from n r s e show ?thesis
    by (intro conjI)
qed

text \<open>
  C4, as stated, fails: with the same \<open>with\<close> and \<open>nb.iss\<close>, a proof whose requested
  abilities are \<open>store/*\<close> does not cover a claim that requests \<open>store/add\<close>.
\<close>

theorem namespace_wildcard_counterexample:
  "subsetCapabilities [\<lparr>can = ''store/add''\<rparr>] [\<lparr>can = ''store/*''\<rparr>]
     = Inl (Failure ''unauthorized nb.att.can store/add'')
   \<and> authorize_derives
       \<lparr>can = ''access/authorize'', with_uri = ''did:key:zAgent'',
        nb = \<lparr>iss = ''did:mailto:example:alice'', att = [\<lparr>can = ''store/add''\<rparr>]\<rparr>\<rparr>
       \<lparr>can = ''access/authorize'', with_uri = ''did:key:zAgent'',
        nb = \<lparr>iss = ''did:mailto:example:alice'', att = [\<lparr>can = ''store/*''\<rparr>]\<rparr>\<rparr>
     = Inl (Failure ''unauthorized nb.att.can store/add'')"
proof -
  have s: "subsetCapabilities [\<lparr>can = ''store/add''\<rparr>] [\<lparr>can = ''store/*''\<rparr>]
     = Inl (Failure ''unauthorized nb.att.can store/add'')"
    by (simp add: subsetCapabilities_def setDifference_def new_Set_def Set_add_def has_def)
  then have "authorize_derives
       \<lparr>can = ''access/authorize'', with_uri = ''did:key:zAgent'',
        nb = \<lparr>iss = ''did:mailto:example:alice'', att = [\<lparr>can = ''store/add''\<rparr>]\<rparr>\<rparr>
       \<lparr>can = ''access/authorize'', with_uri = ''did:key:zAgent'',
        nb = \<lparr>iss = ''did:mailto:example:alice'', att = [\<lparr>can = ''store/*''\<rparr>]\<rparr>\<rparr>
     = Inl (Failure ''unauthorized nb.att.can store/add'')"
    by (simp add: authorize_derives_def equalWith_def equal_def fail_def)
  with s show ?thesis
    by (intro conjI)
qed

text \<open>
  C4, amended. For \<open>access/authorize\<close> and \<open>access/confirm\<close> capabilities with the same
  \<open>with\<close> (and the same \<open>nb.iss\<close>, and \<open>nb.aud\<close>), whatever their own \<open>can\<close>: when the
  proof's requested abilities contain the universal wildcard \<open>*\<close>, \<open>derives\<close> succeeds
  for every claim. Without \<open>*\<close>, a requested ability that is not literally among the
  proof's is rejected: a namespace wildcard such as \<open>store/*\<close> absorbs nothing.
\<close>

theorem universal_wildcard_absorbs:
  assumes "with_uri c = with_uri p" and "iss (nb c) = iss (nb p)"
    and "with_uri c' = with_uri p'" and "iss (nb c') = iss (nb p')"
    and "aud (nb c') = aud (nb p')"
  shows "(''*'' \<in> can ` set patt \<longrightarrow> subsetCapabilities catt patt = Inr ())
       \<and> (''*'' \<notin> can ` set patt \<and> b \<in> can ` set catt \<and> b \<notin> can ` set patt
            \<longrightarrow> subsetCapabilities catt patt \<noteq> Inr ())
       \<and> (''*'' \<in> can ` set (att (nb p)) \<longrightarrow> authorize_derives c p = Inr ())
       \<and> (''*'' \<in> can ` set (att (nb p')) \<longrightarrow> confirm_derives c' p' = Inr ())
       \<and> (''*'' \<notin> can ` set (att (nb p)) \<and> a \<in> can ` set (att (nb c))
            \<and> a \<notin> can ` set (att (nb p)) \<longrightarrow> authorize_derives c p \<noteq> Inr ())
       \<and> (''*'' \<notin> can ` set (att (nb p')) \<and> a' \<in> can ` set (att (nb c'))
            \<and> a' \<notin> can ` set (att (nb p')) \<longrightarrow> confirm_derives c' p' \<noteq> Inr ())"
proof -
  have u: "''*'' \<in> can ` set patt \<longrightarrow> subsetCapabilities catt patt = Inr ()"
    by (simp add: subsetCapabilities_eq)
  have l: "''*'' \<notin> can ` set patt \<and> b \<in> can ` set catt \<and> b \<notin> can ` set patt
            \<longrightarrow> subsetCapabilities catt patt \<noteq> Inr ()"
    by (auto simp: subsetCapabilities_eq)
  have x: "authorize_derives c p = subsetCapabilities (att (nb c)) (att (nb p))"
    using assms(1,2) by (rule authorize_derives_agree)
  have y: "confirm_derives c' p' = subsetCapabilities (att (nb c')) (att (nb p'))"
    using assms(3,4,5) by (rule confirm_derives_agree)
  have 1: "''*'' \<in> can ` set (att (nb p)) \<longrightarrow> authorize_derives c p = Inr ()"
    by (simp add: x subsetCapabilities_eq)
  have 2: "''*'' \<in> can ` set (att (nb p')) \<longrightarrow> confirm_derives c' p' = Inr ()"
    by (simp add: y subsetCapabilities_eq)
  have 3: "''*'' \<notin> can ` set (att (nb p)) \<and> a \<in> can ` set (att (nb c))
            \<and> a \<notin> can ` set (att (nb p)) \<longrightarrow> authorize_derives c p \<noteq> Inr ()"
    by (auto simp: x subsetCapabilities_eq)
  have 4: "''*'' \<notin> can ` set (att (nb p')) \<and> a' \<in> can ` set (att (nb c'))
            \<and> a' \<notin> can ` set (att (nb p')) \<longrightarrow> confirm_derives c' p' \<noteq> Inr ()"
    by (auto simp: y subsetCapabilities_eq)
  from u l 1 2 3 4 show ?thesis
    by (intro conjI)
qed

theorem universal_wildcard_absorbs_witness:
  "with_uri ex_confirm_claim = with_uri ex_confirm_proof
   \<and> iss (nb ex_confirm_claim) = iss (nb ex_confirm_proof)
   \<and> aud (nb ex_confirm_claim) = aud (nb ex_confirm_proof)
   \<and> with_uri ex_authorize_claim = with_uri ex_authorize_proof
   \<and> iss (nb ex_authorize_claim) = iss (nb ex_authorize_proof)
   \<and> ''*'' \<in> can ` set (att (nb ex_confirm_proof))
   \<and> confirm_derives ex_confirm_claim ex_confirm_proof = Inr ()
   \<and> ''*'' \<notin> can ` set (att (nb ex_authorize_proof))
   \<and> ''store/remove'' \<in> can ` set (att (nb ex_authorize_claim))
   \<and> ''store/remove'' \<notin> can ` set (att (nb ex_authorize_proof))
   \<and> authorize_derives ex_authorize_claim ex_authorize_proof \<noteq> Inr ()"
proof -
  have h1: "with_uri ex_authorize_claim = with_uri ex_authorize_proof"
    and h2: "iss (nb ex_authorize_claim) = iss (nb ex_authorize_proof)"
    by (simp_all add: ex_authorize_claim_def ex_authorize_proof_def)
  have h3: "with_uri ex_confirm_claim = with_uri ex_confirm_proof"
    and h4: "iss (nb ex_confirm_claim) = iss (nb ex_confirm_proof)"
    and h5: "aud (nb ex_confirm_claim) = aud (nb ex_confirm_proof)"
    by (simp_all add: ex_confirm_claim_def ex_confirm_proof_def)
  have s1: "''*'' \<in> can ` set (att (nb ex_confirm_proof))"
    by (simp add: ex_confirm_proof_def)
  have s2: "''*'' \<notin> can ` set (att (nb ex_authorize_proof))"
    and s3: "''store/remove'' \<in> can ` set (att (nb ex_authorize_claim))"
    and s4: "''store/remove'' \<notin> can ` set (att (nb ex_authorize_proof))"
    by (simp_all add: ex_authorize_proof_def ex_authorize_claim_def)
  note t = universal_wildcard_absorbs [OF h1 h2 h3 h4 h5, where a = "''store/remove''"]
  from t s1 have r1: "confirm_derives ex_confirm_claim ex_confirm_proof = Inr ()"
    by blast
  from t s2 s3 s4 have r2: "authorize_derives ex_authorize_claim ex_authorize_proof \<noteq> Inr ()"
    by blast
  from h3 h4 h5 h1 h2 s1 r1 s2 s3 s4 r2 show ?thesis
    by (intro conjI)
qed

section \<open>Properties of the authorization workflow\<close>

text \<open>
  C5. Confirming a pending request of agent \<open>G\<close> for account \<open>A\<close> with requested
  abilities \<open>[{can: "*"}]\<close> issues exactly two delegations, which \<open>G\<close> then claims after
  whatever was already waiting for it: the authorization (issuer \<open>A\<close>, audience \<open>G\<close>,
  no expiry, capabilities \<open>[{can: "*", with: "ucan:*"}]\<close>) and the attestation (issuer
  the authority, sole capability \<open>ucan/attest\<close> on the authority's DID with \<open>nb.proof\<close>
  the Link of the authorization).
\<close>

theorem confirmation_issues_session:
  assumes "map_of (pending st) key = Some request"
    and "att (nb request) = [\<lparr>can = ''*''\<rparr>]"
    and "iss (nb request) = A" and "with_uri request = G"
    and "authorization =
           \<lparr>issuer = A, audience = G,
            capabilities = [\<lparr>can = ''*'', with_uri = ''ucan:*'', nb = None\<rparr>],
            expiration = Some Infinity, facts = []\<rparr>"
    and "attestation =
           \<lparr>issuer = authority, audience = G,
            capabilities = [\<lparr>can = ''ucan/attest'', with_uri = authority,
                             nb = Some \<lparr>nb_proof = link_of authorization\<rparr>\<rparr>],
            expiration = Some Infinity, facts = []\<rparr>"
  shows "queue (confirmation link_of authority st key) = queue st @ [authorization, attestation]
       \<and> fst (claim_delegations (confirmation link_of authority st key) G)
           = fst (claim_delegations st G) @ [authorization, attestation]"
proof -
  have c: "createSessionProofs link_of authority request = [authorization, attestation]"
    by (simp add: createSessionProofs_def Let_def assms(2-6))
  have q: "queue (confirmation link_of authority st key) = queue st @ [authorization, attestation]"
    by (simp add: confirmation_def assms(1) c)
  have a: "audience authorization = G" "audience attestation = G"
    by (simp_all add: assms(5,6))
  have "fst (claim_delegations (confirmation link_of authority st key) G)
           = fst (claim_delegations st G) @ [authorization, attestation]"
    by (simp add: claim_delegations_def q a)
  with q show ?thesis
    by (intro conjI)
qed

text \<open>
  The end-to-end scenario of the spec: from the empty state, the agent's request is
  confirmed and its claim returns exactly the two delegations.
\<close>

theorem confirmation_issues_session_witness:
  "map_of (pending ex_state) 0 = Some ex_sudo_request
   \<and> att (nb ex_sudo_request) = [\<lparr>can = ''*''\<rparr>]
   \<and> iss (nb ex_sudo_request) = ''did:mailto:example:alice''
   \<and> with_uri ex_sudo_request = ''did:key:zAgent''
   \<and> queue ex_state = []
   \<and> fst (claim_delegations
            (confirmation ex_link_of ''did:web:web3.storage'' ex_state 0) ''did:key:zAgent'')
       = [ex_authorization, ex_attestation]"
proof -
  have h1: "map_of (pending ex_state) 0 = Some ex_sudo_request"
    by (simp add: ex_state_def authorize_request_def)
  have h2: "att (nb ex_sudo_request) = [\<lparr>can = ''*''\<rparr>]"
    and h3: "iss (nb ex_sudo_request) = ''did:mailto:example:alice''"
    and h4: "with_uri ex_sudo_request = ''did:key:zAgent''"
    by (simp_all add: ex_sudo_request_def)
  have q: "queue ex_state = []"
    by (simp add: ex_state_def authorize_request_def)
  have e: "fst (claim_delegations ex_state ''did:key:zAgent'') = []"
    by (simp add: claim_delegations_def q)
  note t = confirmation_issues_session
    [where link_of = ex_link_of, OF h1 h2 h3 h4 ex_authorization_def ex_attestation_def]
  from t e have r: "fst (claim_delegations
            (confirmation ex_link_of ''did:web:web3.storage'' ex_state 0) ''did:key:zAgent'')
       = [ex_authorization, ex_attestation]"
    by simp
  from h1 h2 h3 h4 q r show ?thesis
    by (intro conjI)
qed

section \<open>Properties of spaces\<close>

text \<open>
  C6. \<open>createRecovery(S, A)\<close> is a delegation issued by the space's signing key to the
  account \<open>A\<close>, with the single capability \<open>{with: S's DID, can: "*"}\<close> and the
  expiration \<open>Infinity\<close>.
\<close>

theorem createRecovery_delegation:
  "issuer (createRecovery S A) = did (signer S)
   \<and> audience (createRecovery S A) = A
   \<and> capabilities (createRecovery S A) = [\<lparr>can = ''*'', with_uri = did (signer S), nb = None\<rparr>]
   \<and> expiration (createRecovery S A) = Some Infinity"
  by (simp add: createRecovery_def delegate_def withDID_def)

text \<open>
  C7. Without an explicit expiration, \<open>createAuthorization\<close> issues a delegation that
  expires 31536000 seconds (one year, \<open>SESSION_LIFETIME\<close>) after the current Unix
  timestamp \<open>now\<close>. A current timestamp is not negative; the one clock value for which
  the sum would be falsy, and the expiration dropped, is \<open>- SESSION_LIFETIME\<close>.
\<close>

theorem createAuthorization_default_expiration:
  assumes "0 \<le> now"
  shows "expiration (createAuthorization spaceAccess now S P access_opt None)
           = Some (At (now + 31536000))
       \<and> SESSION_LIFETIME = 31536000"
proof -
  have "now + SESSION_LIFETIME \<noteq> 0"
    using assms by (simp add: SESSION_LIFETIME_def)
  then show ?thesis
    by (simp add: createAuthorization_def delegate_def Let_def SESSION_LIFETIME_def)
qed

theorem createAuthorization_default_expiration_witness:
  "(0::int) \<le> 1700000000
   \<and> expiration (createAuthorization [(''space/*'', True)] 1700000000 ex_space
        \<lparr>did = ''did:key:zAgent''\<rparr> None None :: unit Delegation) = Some (At 1731536000)"
proof -
  have h: "(0::int) \<le> 1700000000"
    by simp
  from createAuthorization_default_expiration [OF h]
  have "expiration (createAuthorization [(''space/*'', True)] 1700000000 ex_space
        \<lparr>did = ''did:key:zAgent''\<rparr> None None :: unit Delegation)
          = Some (At (1700000000 + 31536000))"
    by (rule conjunct1)
  then have e: "expiration (createAuthorization [(''space/*'', True)] 1700000000 ex_space
        \<lparr>did = ''did:key:zAgent''\<rparr> None None :: unit Delegation) = Some (At 1731536000)"
    by simp
  from h e show ?thesis
    by (intro conjI)
qed

text \<open>
  C9. \<open>s.withName(n)\<close> on a shared space allocates a new metadata object and returns a
  new space whose name is \<open>n\<close>, with the id, the delegation and every metadata field but
  \<open>name\<close> as in \<open>s\<close>; no object that existed before is changed, so \<open>s\<close> and its metadata
  read as before. \<open>withName\<close> on an owned space changes the name and keeps the signer.
\<close>

theorem withName_changes_only_name:
  assumes "SharedSpace_withName h s n = (h', s')" and "meta s < length h"
  shows "SharedSpace_name h' s' = Str n
       \<and> space_id s' = space_id s
       \<and> delegation s' = delegation s
       \<and> (\<forall>k. k \<noteq> ''name'' \<longrightarrow> map_of (h' ! meta s') k = map_of (h ! meta s) k)
       \<and> meta s' \<noteq> meta s
       \<and> take (length h) h' = h
       \<and> h' ! meta s = h ! meta s
       \<and> SharedSpace_name h' s = SharedSpace_name h s
       \<and> name (OwnedSpace_withName os n) = n
       \<and> signer (OwnedSpace_withName os n) = signer os"
proof -
  let ?ob = "AList.update ''name'' (Str n) (h ! meta s)"
  from assms(1) have h': "h' = h @ [?ob]"
    and s': "s' = \<lparr>delegation = delegation s, space_id = space_id s, meta = length h\<rparr>"
    by (auto simp: SharedSpace_withName_def alloc_def)
  have new: "h' ! meta s' = ?ob" by (simp add: h' s')
  have old: "h' ! meta s = h ! meta s" using assms(2) by (simp add: h' nth_append)
  have 1: "SharedSpace_name h' s' = Str n"
    by (simp add: SharedSpace_name_def new update_conv')
  have 2: "\<forall>k. k \<noteq> ''name'' \<longrightarrow> map_of (h' ! meta s') k = map_of (h ! meta s) k"
    by (simp add: new update_conv')
  have 3: "meta s' \<noteq> meta s" using assms(2) by (simp add: s')
  have 4: "SharedSpace_name h' s = SharedSpace_name h s"
    by (simp add: SharedSpace_name_def old)
  show ?thesis
    using 1 2 3 4 old by (simp add: s' h' OwnedSpace_withName_def)
qed

theorem withName_changes_only_name_witness:
  "SharedSpace_withName ex_heap ex_shared ''new'' =
      (ex_heap @ [[(''name'', Str ''new''), (''color'', Str ''blue'')]],
       \<lparr>delegation = 7, space_id = ''did:key:zSpace'', meta = 2\<rparr>)
   \<and> meta ex_shared < length ex_heap
   \<and> SharedSpace_name (ex_heap @ [[(''name'', Str ''new''), (''color'', Str ''blue'')]])
        \<lparr>delegation = 7::nat, space_id = ''did:key:zSpace'', meta = 2\<rparr> = Str ''new''
   \<and> SharedSpace_name (ex_heap @ [[(''name'', Str ''new''), (''color'', Str ''blue'')]]) ex_shared
        = Str ''old''
   \<and> name (OwnedSpace_withName ex_space ''new'') = ''new''
   \<and> signer (OwnedSpace_withName ex_space ''new'') = signer ex_space"
proof -
  have e: "SharedSpace_withName ex_heap ex_shared ''new'' =
      (ex_heap @ [[(''name'', Str ''new''), (''color'', Str ''blue'')]],
       \<lparr>delegation = 7, space_id = ''did:key:zSpace'', meta = 2\<rparr>)"
    by (simp add: SharedSpace_withName_def alloc_def ex_heap_def ex_shared_def)
  have m: "meta ex_shared < length ex_heap"
    by (simp add: ex_heap_def ex_shared_def)
  have o: "SharedSpace_name ex_heap ex_shared = Str ''old''"
    by (simp add: SharedSpace_name_def ex_heap_def ex_shared_def)
  note t = withName_changes_only_name [OF e m, where os = ex_space]
  from t have a: "SharedSpace_name (ex_heap @ [[(''name'', Str ''new''), (''color'', Str ''blue'')]])
        \<lparr>delegation = 7::nat, space_id = ''did:key:zSpace'', meta = 2\<rparr> = Str ''new''"
    by (rule conjunct1)
  from t have "SharedSpace_name (ex_heap @ [[(''name'', Str ''new''), (''color'', Str ''blue'')]]) ex_shared
        = SharedSpace_name ex_heap ex_shared"
    by blast
  from this o have b: "SharedSpace_name (ex_heap @ [[(''name'', Str ''new''), (''color'', Str ''blue'')]]) ex_shared
        = Str ''old''"
    by (rule trans)
  from t have c: "name (OwnedSpace_withName ex_space ''new'') = ''new''"
    and d: "signer (OwnedSpace_withName ex_space ''new'') = signer ex_space"
    by blast+
  from e m a b c d show ?thesis
    by (intro conjI)
qed

section \<open>Properties of the memory driver\<close>

text \<open>
  C10. A new driver and a reset driver load nothing. After \<open>save(data)\<close>, \<open>load\<close>
  returns nothing when \<open>data\<close> has no keys; otherwise it returns a reference to a new
  object (not \<open>data\<close> itself) that holds what \<open>data\<close> holds, and \<open>data\<close> and every other
  existing object are unchanged.
\<close>

theorem MemoryDriver_load_after_save:
  assumes "save h this d = (h', this')" and "d < length h"
  shows "load g MemoryDriver_new = None
       \<and> load g (reset other) = None
       \<and> (if map fst (h ! d) = [] then load h' this' = None
          else load h' this' = Some (length h)
             \<and> length h \<noteq> d
             \<and> h' ! length h = h ! d
             \<and> h' ! d = h ! d
             \<and> take (length h) h' = h)"
proof -
  from assms(1) have h': "h' = h @ [h ! d]" and t: "data this' = Some (length h)"
    by (auto simp: save_def alloc_def)
  have 1: "load g MemoryDriver_new = None"
    by (simp add: load_def MemoryDriver_new_def)
  have 2: "load g (reset other) = None"
    by (simp add: load_def reset_def)
  have 3: "h' ! length h = h ! d" by (simp add: h')
  have 4: "h' ! d = h ! d" using assms(2) by (simp add: h' nth_append)
  have 5: "load h' this' = (if map fst (h ! d) = [] then None else Some (length h))"
    by (simp add: load_def t 3)
  have 6: "length h \<noteq> d"
    using assms(2) by simp
  have 7: "take (length h) h' = h"
    by (simp add: h')
  have "if map fst (h ! d) = [] then load h' this' = None
        else load h' this' = Some (length h)
           \<and> length h \<noteq> d
           \<and> h' ! length h = h ! d
           \<and> h' ! d = h ! d
           \<and> take (length h) h' = h"
  proof (cases "map fst (h ! d) = []")
    case True
    with 5 show ?thesis by simp
  next
    case False
    with 3 4 5 6 7 show ?thesis by simp
  qed
  with 1 2 show ?thesis
    by (intro conjI)
qed

theorem MemoryDriver_load_after_save_witness:
  "save ex_heap MemoryDriver_new 0 =
     (ex_heap @ [[(''name'', Str ''old''), (''color'', Str ''blue'')]], \<lparr>data = Some 2\<rparr>)
   \<and> (0::nat) < length ex_heap
   \<and> map fst (ex_heap ! 0) \<noteq> []
   \<and> load (ex_heap @ [[(''name'', Str ''old''), (''color'', Str ''blue'')]]) \<lparr>data = Some 2\<rparr>
       = Some (length ex_heap)
   \<and> load ex_heap MemoryDriver_new = None"
proof -
  have e: "save ex_heap MemoryDriver_new 0 =
     (ex_heap @ [[(''name'', Str ''old''), (''color'', Str ''blue'')]], \<lparr>data = Some 2\<rparr>)"
    by (simp add: save_def alloc_def ex_heap_def MemoryDriver_new_def)
  have m: "(0::nat) < length ex_heap"
    by (simp add: ex_heap_def)
  have z: "map fst (ex_heap ! 0) \<noteq> []"
    by (simp add: ex_heap_def)
  note t = MemoryDriver_load_after_save
    [OF e m, where g = ex_heap and other = MemoryDriver_new]
  from t have n: "load ex_heap MemoryDriver_new = None"
    by (rule conjunct1)
  from t z have l: "load (ex_heap @ [[(''name'', Str ''old''), (''color'', Str ''blue'')]]) \<lparr>data = Some 2\<rparr>
       = Some (length ex_heap)"
    by (simp only: if_False)
  from e m z l n show ?thesis
    by (intro conjI)
qed

end
